theory Spec2Isabelle
  imports Complex_Main
begin

section \<open>Values\<close>

text \<open>
  The serializers of \<^verbatim>\<open>src/index.ts\<close> work on values of type \<^verbatim>\<open>any\<close>, on both sides:
  the untyped input of \<^verbatim>\<open>read\<close> and the typed result are JavaScript values.  The
  embedding uses one universe for both.

  \<^item> A number is \<open>NaN\<close>, an infinity or a finite value.  A finite value is kept as an
    exact rational: the decimal value that the number prints as.  Rounding to the nearest
    double and negative zero are not represented, so the model and the program agree on
    the numbers whose decimal form is exact (every integer below \<open>2^53\<close> in magnitude,
    every short decimal literal).
  \<^item> A string is a list of code units below 256.
  \<^item> An object is the list of its own properties in the order \<^verbatim>\<open>Object.keys\<close> enumerates
    them.  Property names that live on the built-in prototypes (\<^verbatim>\<open>constructor\<close>,
    \<^verbatim>\<open>toString\<close>, ...) are not represented: reading a name that is not an own property
    gives \<open>JUndefined\<close>.
\<close>

datatype jsnum = NaN | PosInf | NegInf | Fin rat

datatype jsval =
    JUndefined
  | JNull
  | JBool bool
  | JNum jsnum
  | JStr string
  | JArr "jsval list"
  | JObj "(string \<times> jsval) list"

text \<open>
  \<^verbatim>\<open>new ParseError(wanted, got)\<close> is kept by its two constructor arguments; the message
  of the exception is \<^verbatim>\<open>Parse error: expected ${wanted} but found ${JSON.stringify(got)}\<close>.
  \<open>TypeError\<close> is what the runtime throws on a property read of \<^verbatim>\<open>null\<close> or
  \<^verbatim>\<open>undefined\<close> and on a call of something that is not a function.
\<close>

datatype error = ParseError string jsval | TypeError

definition parseError :: "string \<Rightarrow> jsval \<Rightarrow> error + 'a" where
  "parseError wanted got = Inl (ParseError wanted got)"

subsection \<open>Operators of the language\<close>

fun typeof :: "jsval \<Rightarrow> string" where
  "typeof JUndefined = ''undefined''"
| "typeof JNull = ''object''"
| "typeof (JBool b) = ''boolean''"
| "typeof (JNum n) = ''number''"
| "typeof (JStr s) = ''string''"
| "typeof (JArr xs) = ''object''"
| "typeof (JObj kvs) = ''object''"

text \<open>\<^verbatim>\<open>o == null\<close> holds for \<^verbatim>\<open>null\<close> and \<^verbatim>\<open>undefined\<close> only.\<close>

fun eq_null :: "jsval \<Rightarrow> bool" where
  "eq_null JUndefined = True"
| "eq_null JNull = True"
| "eq_null v = False"

fun instanceof_Array :: "jsval \<Rightarrow> bool" where
  "instanceof_Array (JArr xs) = True"
| "instanceof_Array v = False"

fun instanceof_Object :: "jsval \<Rightarrow> bool" where
  "instanceof_Object (JArr xs) = True"
| "instanceof_Object (JObj kvs) = True"
| "instanceof_Object v = False"

fun isNaN :: "jsnum \<Rightarrow> bool" where
  "isNaN NaN = True"
| "isNaN n = False"

subsection \<open>Decimal digits\<close>

definition digit_char :: "nat \<Rightarrow> char" where
  "digit_char d = char_of (48 + d)"

fun digits_of :: "nat \<Rightarrow> string" where
  "digits_of n = (if n < 10 then [digit_char n] else digits_of (n div 10) @ [digit_char (n mod 10)])"

declare digits_of.simps [simp del]

subsection \<open>Properties\<close>

text \<open>
  \<^verbatim>\<open>out[key] = v\<close>: an existing property keeps its place, a new one goes last.  (The
  runtime lists index-like names first; the loops below add names in the order of
  \<^verbatim>\<open>Object.keys\<close>, which has them first already.)
\<close>

fun set_prop :: "(string \<times> jsval) list \<Rightarrow> string \<Rightarrow> jsval \<Rightarrow> (string \<times> jsval) list" where
  "set_prop [] key v = [(key, v)]"
| "set_prop ((k, w) # kvs) key v =
     (if k = key then (k, v) # kvs else (k, w) # set_prop kvs key v)"

definition own_prop :: "(string \<times> jsval) list \<Rightarrow> string \<Rightarrow> jsval" where
  "own_prop kvs key = (case map_of kvs key of None \<Rightarrow> JUndefined | Some v \<Rightarrow> v)"

text \<open>\<^verbatim>\<open>xs[i]\<close> on an array, and \<^verbatim>\<open>s[i]\<close> on a string.\<close>

definition elem :: "jsval list \<Rightarrow> nat \<Rightarrow> jsval" where
  "elem xs i = (if i < length xs then xs ! i else JUndefined)"

definition char_at :: "string \<Rightarrow> nat \<Rightarrow> jsval" where
  "char_at s i = (if i < length s then JStr [s ! i] else JUndefined)"

text \<open>The array index that a property name denotes, if it is the canonical decimal of one.\<close>

definition index_of_key :: "string \<Rightarrow> nat \<Rightarrow> nat option" where
  "index_of_key key len = find (\<lambda>i. digits_of i = key) [0..<len]"

text \<open>
  \<^verbatim>\<open>o[key]\<close>.  On \<^verbatim>\<open>null\<close> and \<^verbatim>\<open>undefined\<close> the read throws; on the other values it
  gives the own property, \<^verbatim>\<open>length\<close> and the indexed elements of arrays and strings
  included.
\<close>

fun get :: "jsval \<Rightarrow> string \<Rightarrow> error + jsval" where
  "get JUndefined key = Inl TypeError"
| "get JNull key = Inl TypeError"
| "get (JBool b) key = Inr JUndefined"
| "get (JNum n) key = Inr JUndefined"
| "get (JStr s) key =
     (if key = ''length'' then Inr (JNum (Fin (of_nat (length s))))
      else case index_of_key key (length s) of
             Some i \<Rightarrow> Inr (char_at s i) | None \<Rightarrow> Inr JUndefined)"
| "get (JArr xs) key =
     (if key = ''length'' then Inr (JNum (Fin (of_nat (length xs))))
      else case index_of_key key (length xs) of
             Some i \<Rightarrow> Inr (elem xs i) | None \<Rightarrow> Inr JUndefined)"
| "get (JObj kvs) key = Inr (own_prop kvs key)"

text \<open>\<^verbatim>\<open>r[i]\<close> with a numeric index.\<close>

fun get_index :: "jsval \<Rightarrow> nat \<Rightarrow> error + jsval" where
  "get_index JUndefined i = Inl TypeError"
| "get_index JNull i = Inl TypeError"
| "get_index (JBool b) i = Inr JUndefined"
| "get_index (JNum n) i = Inr JUndefined"
| "get_index (JStr s) i = Inr (char_at s i)"
| "get_index (JArr xs) i = Inr (elem xs i)"
| "get_index (JObj kvs) i = Inr (own_prop kvs (digits_of i))"

text \<open>The own enumerable properties that \<^verbatim>\<open>{...v}\<close> copies.\<close>

fun spread :: "jsval \<Rightarrow> (string \<times> jsval) list" where
  "spread (JObj kvs) = kvs"
| "spread (JArr xs) = map (\<lambda>i. (digits_of i, xs ! i)) [0..<length xs]"
| "spread (JStr s) = map (\<lambda>i. (digits_of i, JStr [s ! i])) [0..<length s]"
| "spread v = []"

text \<open>
  \<^verbatim>\<open>xs.indexOf(v)\<close> on a list of strings: the first position whose string is strictly equal
  to \<open>v\<close>, or \<open>-1\<close>.
\<close>

fun indexOf_from :: "int \<Rightarrow> string list \<Rightarrow> jsval \<Rightarrow> int" where
  "indexOf_from i [] v = -1"
| "indexOf_from i (x # xs) v = (if v = JStr x then i else indexOf_from (i + 1) xs v)"

definition indexOf :: "string list \<Rightarrow> jsval \<Rightarrow> int" where
  "indexOf xs v = indexOf_from 0 xs v"

text \<open>\<^verbatim>\<open>xs.map(f)\<close> where \<open>f\<close> may throw: left to right, the first exception ends the call.\<close>

fun map_result :: "('a \<Rightarrow> error + 'b) \<Rightarrow> 'a list \<Rightarrow> error + 'b list" where
  "map_result f [] = Inr []"
| "map_result f (x # xs) =
     (case f x of
        Inl e \<Rightarrow> Inl e
      | Inr y \<Rightarrow> (case map_result f xs of Inl e \<Rightarrow> Inl e | Inr ys \<Rightarrow> Inr (y # ys)))"

subsection \<open>Conversion to strings\<close>

fun join_with :: "string \<Rightarrow> string list \<Rightarrow> string" where
  "join_with sep [] = []"
| "join_with sep [x] = x"
| "join_with sep (x # y # ys) = x @ sep @ join_with sep (y # ys)"

text \<open>
  \<^verbatim>\<open>Number::toString\<close> of the language definition works on the shortest decimal
  \<open>s \<times> 10^(n - k)\<close> of the number, \<open>k\<close> the number of digits of \<open>s\<close>.  \<open>decimal_of\<close>
  computes \<open>s\<close> and the exponent \<open>n - k\<close> from the rational: trailing zeros of an integer
  are stripped, a fraction is scaled by ten until it is an integer.  (A rational that is
  not a finite decimal stands for no number; the scaling stops on it.)
\<close>

fun strip_zeros :: "nat \<Rightarrow> nat \<times> nat" where
  "strip_zeros m =
     (if 0 < m \<and> m mod 10 = 0
      then (case strip_zeros (m div 10) of (s, z) \<Rightarrow> (s, Suc z))
      else (m, 0))"

declare strip_zeros.simps [simp del]

function scale_up :: "nat \<Rightarrow> nat \<Rightarrow> nat \<Rightarrow> nat \<times> nat" where
  "scale_up a b j =
     (if b \<le> 1 then (a, j)
      else if gcd b 10 = 1 then (a div b, j)
      else scale_up (a * (10 div gcd b 10)) (b div gcd b 10) (Suc j))"
  by pat_completeness auto
termination
proof (relation "measure (\<lambda>(a, b, j). b)")
  show "wf (measure (\<lambda>(a, b, j). b))" by simp
next
  fix a b j :: nat
  assume "\<not> b \<le> 1" and g: "gcd b 10 \<noteq> 1"
  then have "0 < b" by simp
  moreover have "gcd b 10 \<noteq> 0" using \<open>0 < b\<close> by simp
  ultimately have "1 < gcd b 10" using g by (cases "gcd b 10") auto
  then have "b div gcd b 10 < b" using \<open>0 < b\<close> by (intro div_less_dividend) auto
  then show "((a * (10 div gcd b 10), b div gcd b 10, Suc j), (a, b, j)) \<in> measure (\<lambda>(a, b, j). b)"
    by simp
qed

declare scale_up.simps [simp del]

definition decimal_of :: "rat \<Rightarrow> nat \<times> int" where
  "decimal_of q =
     (case quotient_of q of (a, b) \<Rightarrow>
        if b = 1 then (case strip_zeros (nat a) of (s, z) \<Rightarrow> (s, int z))
        else (case scale_up (nat a) (nat b) 0 of (s, j) \<Rightarrow> (s, - int j)))"

definition pos_to_string :: "rat \<Rightarrow> string" where
  "pos_to_string q =
     (case decimal_of q of (s, e) \<Rightarrow>
        let ds = digits_of s; k = int (length ds); n = e + k in
        if -5 \<le> n \<and> n \<le> 21 then
          (if k \<le> n then ds @ replicate (nat (n - k)) CHR ''0''
           else if 0 < n then take (nat n) ds @ ''.'' @ drop (nat n) ds
           else ''0.'' @ replicate (nat (- n)) CHR ''0'' @ ds)
        else
          (let exponentSign = (if n < 0 then ''-'' else ''+'');
               ex = digits_of (nat \<bar>n - 1\<bar>)
           in if k = 1 then ds @ ''e'' @ exponentSign @ ex
              else [hd ds] @ ''.'' @ tl ds @ ''e'' @ exponentSign @ ex))"

fun num_to_string :: "jsnum \<Rightarrow> string" where
  "num_to_string NaN = ''NaN''"
| "num_to_string PosInf = ''Infinity''"
| "num_to_string NegInf = ''-Infinity''"
| "num_to_string (Fin q) =
     (if q = 0 then ''0''
      else if q < 0 then ''-'' @ pos_to_string (- q)
      else pos_to_string q)"

text \<open>
  \<^verbatim>\<open>ToString\<close>, which \<^verbatim>\<open>parseInt\<close>, \<^verbatim>\<open>parseFloat\<close> and template literals apply to their
  argument.  An array prints its elements joined by commas, \<^verbatim>\<open>null\<close> and
  \<^verbatim>\<open>undefined\<close> elements as the empty string.
\<close>

fun to_string :: "jsval \<Rightarrow> string" where
  "to_string JUndefined = ''undefined''"
| "to_string JNull = ''null''"
| "to_string (JBool b) = (if b then ''true'' else ''false'')"
| "to_string (JNum n) = num_to_string n"
| "to_string (JStr s) = s"
| "to_string (JArr xs) =
     join_with '','' (map (\<lambda>x. if eq_null x then [] else to_string x) xs)"
| "to_string (JObj kvs) = ''[object Object]''"

text \<open>\<^verbatim>\<open>JSON.stringify\<close> of a string and of an array of strings.\<close>

definition hex_char :: "nat \<Rightarrow> char" where
  "hex_char d = (if d < 10 then char_of (48 + d) else char_of (87 + d))"

definition json_escape :: "char \<Rightarrow> string" where
  "json_escape c =
     (let n = (of_char c :: nat) in
      if n = 0x22 then [CHR 0x5C, CHR 0x22]
      else if n = 0x5C then [CHR 0x5C, CHR 0x5C]
      else if n = 0x08 then [CHR 0x5C, CHR ''b'']
      else if n = 0x0C then [CHR 0x5C, CHR ''f'']
      else if n = 0x0A then [CHR 0x5C, CHR ''n'']
      else if n = 0x0D then [CHR 0x5C, CHR ''r'']
      else if n = 0x09 then [CHR 0x5C, CHR ''t'']
      else if n < 0x20 then [CHR 0x5C, CHR ''u'', CHR ''0'', CHR ''0'', hex_char (n div 16), hex_char (n mod 16)]
      else [c])"

definition json_string :: "string \<Rightarrow> string" where
  "json_string s = [CHR 0x22] @ concat (map json_escape s) @ [CHR 0x22]"

definition json_string_array :: "string list \<Rightarrow> string" where
  "json_string_array xs = ''['' @ join_with '','' (map json_string xs) @ '']''"

subsection \<open>The numeric parsers of the language\<close>

definition is_whitespace :: "char \<Rightarrow> bool" where
  "is_whitespace c = ((of_char c :: nat) \<in> {0x09, 0x0A, 0x0B, 0x0C, 0x0D, 0x20, 0xA0})"

definition is_digit :: "char \<Rightarrow> bool" where
  "is_digit c = (48 \<le> (of_char c :: nat) \<and> (of_char c :: nat) \<le> 57)"

text \<open>The value of a character as a digit, \<open>36\<close> when it is none.\<close>

definition digit_val :: "char \<Rightarrow> nat" where
  "digit_val c =
     (let n = (of_char c :: nat) in
      if 48 \<le> n \<and> n \<le> 57 then n - 48
      else if 97 \<le> n \<and> n \<le> 122 then n - 87
      else if 65 \<le> n \<and> n \<le> 90 then n - 55
      else 36)"

definition digits_value :: "nat \<Rightarrow> string \<Rightarrow> nat" where
  "digits_value R Z = foldl (\<lambda>acc c. acc * R + digit_val c) 0 Z"

text \<open>
  \<^verbatim>\<open>parseInt(o)\<close> with no radix: \<^verbatim>\<open>ToString\<close>, leading white space dropped, an optional
  sign, \<^verbatim>\<open>0x\<close> or \<^verbatim>\<open>0X\<close> selecting radix 16, then the longest run of digits of the
  radix; \<open>NaN\<close> when that run is empty.
\<close>

definition parseInt :: "jsval \<Rightarrow> jsnum" where
  "parseInt o' =
     (let inputString = to_string o';
          S = dropWhile is_whitespace inputString;
          sign = (if S \<noteq> [] \<and> hd S = CHR ''-'' then - 1 else (1::int));
          S1 = (if S \<noteq> [] \<and> (hd S = CHR ''+'' \<or> hd S = CHR ''-'') then tl S else S);
          hex = (take 2 S1 = ''0x'' \<or> take 2 S1 = ''0X'');
          R = (if hex then 16 else 10);
          S2 = (if hex then drop 2 S1 else S1);
          Z = takeWhile (\<lambda>c. digit_val c < R) S2
      in if Z = [] then NaN else Fin (of_int (sign * int (digits_value R Z))))"

text \<open>
  \<^verbatim>\<open>parseFloat(o)\<close>: \<^verbatim>\<open>ToString\<close>, leading white space dropped, then the longest prefix
  that is a decimal literal: an optional sign, then \<^verbatim>\<open>Infinity\<close>, or digits with an
  optional fraction, or a fraction alone, each with an optional exponent; \<open>NaN\<close> when
  there is no such prefix.
\<close>

definition exponent_of :: "string \<Rightarrow> int" where
  "exponent_of r =
     (if r \<noteq> [] \<and> (hd r = CHR ''e'' \<or> hd r = CHR ''E'') then
        (let r1 = tl r;
             esign = (if r1 \<noteq> [] \<and> hd r1 = CHR ''-'' then - 1 else (1::int));
             r2 = (if r1 \<noteq> [] \<and> (hd r1 = CHR ''+'' \<or> hd r1 = CHR ''-'') then tl r1 else r1);
             ed = takeWhile is_digit r2
         in if ed = [] then 0 else esign * int (digits_value 10 ed))
      else 0)"

definition pow10 :: "int \<Rightarrow> rat" where
  "pow10 e = (if 0 \<le> e then 10 ^ nat e else 1 / 10 ^ nat (- e))"

definition parseFloat :: "jsval \<Rightarrow> jsnum" where
  "parseFloat o' =
     (let inputString = to_string o';
          trimmed = dropWhile is_whitespace inputString;
          neg = (trimmed \<noteq> [] \<and> hd trimmed = CHR ''-'');
          S = (if trimmed \<noteq> [] \<and> (hd trimmed = CHR ''+'' \<or> hd trimmed = CHR ''-'')
               then tl trimmed else trimmed)
      in if take 8 S = ''Infinity'' then (if neg then NegInf else PosInf)
         else
           (let ip = takeWhile is_digit S;
                r1 = dropWhile is_digit S;
                dot = (r1 \<noteq> [] \<and> hd r1 = CHR ''.'');
                fp = (if dot then takeWhile is_digit (tl r1) else []);
                r2 = (if dot then dropWhile is_digit (tl r1) else r1)
            in if ip = [] \<and> fp = [] then NaN
               else
                 (let m = of_nat (digits_value 10 ip)
                          + of_nat (digits_value 10 fp) / 10 ^ length fp;
                      v = m * pow10 (exponent_of r2)
                  in Fin (if neg then - v else v))))"

section \<open>Serializers\<close>

text \<open>
  \<^verbatim>\<open>interface SafeSerializer<T> { read: Reader<T>; write: Writer<T>; }\<close> with the
  \<^verbatim>\<open>container\<close> tag of \<^verbatim>\<open>Type<T>\<close>.  A reader or writer either returns a value or
  throws, so both have a result in \<open>error + jsval\<close>.  The three date serializers are left
  out: their values are \<^verbatim>\<open>Date\<close> objects, whose parsing and arithmetic belong to the
  platform.
\<close>

record serializer =
  container :: "string option"
  read :: "jsval \<Rightarrow> error + jsval"
  "write" :: "jsval \<Rightarrow> error + jsval"

definition str :: serializer where
  "str = \<lparr> container = Some ''none'',
           read = (\<lambda>o'. if typeof o' = ''string'' then Inr o' else parseError ''string'' o'),
           write = (\<lambda>t. Inr t) \<rparr>"

definition nothing :: serializer where
  "nothing = \<lparr> container = Some ''none'',
               read = (\<lambda>o'. Inr JUndefined),
               write = (\<lambda>o'. Inr (JStr [])) \<rparr>"

definition bool :: serializer where
  "bool = \<lparr> container = Some ''none'',
            read = (\<lambda>o'. if typeof o' = ''boolean'' then Inr o' else parseError ''boolean'' o'),
            write = (\<lambda>o'. Inr o') \<rparr>"

definition int_s :: serializer where
  "int_s = \<lparr> container = Some ''none'',
             read = (\<lambda>o'. let i = parseInt o' in
                           if isNaN i then parseError ''integer'' o' else Inr (JNum i)),
             write = (\<lambda>o'. Inr o') \<rparr>"

definition float :: serializer where
  "float = \<lparr> container = Some ''none'',
             read = (\<lambda>o'. let i = parseFloat o' in
                           if isNaN i then parseError ''float'' o' else Inr (JNum i)),
             write = (\<lambda>o'. Inr o') \<rparr>"

definition raw :: serializer where
  "raw = \<lparr> container = Some ''none'', read = (\<lambda>o'. Inr o'), write = (\<lambda>o'. Inr o') \<rparr>"

definition optional :: "serializer \<Rightarrow> serializer" where
  "optional s = \<lparr> container = Some ''none'',
                  read = (\<lambda>o'. if eq_null o' then Inr JUndefined else read s o'),
                  write = (\<lambda>t. if eq_null t then Inr JNull else write s t) \<rparr>"

definition nullable :: "serializer \<Rightarrow> serializer" where
  "nullable s = \<lparr> container = Some ''none'',
                  read = (\<lambda>o'. if eq_null o' then Inr JNull else read s o'),
                  write = (\<lambda>t. if eq_null t then Inr JNull else write s t) \<rparr>"

text \<open>
  \<^verbatim>\<open>o.map(s.write)\<close> on something that is not an array has no \<^verbatim>\<open>map\<close> to call: it throws
  a \<open>TypeError\<close>.
\<close>

definition array :: "serializer \<Rightarrow> serializer" where
  "array s = \<lparr> container = Some ''list'',
               read = (\<lambda>o'. case o' of
                         JArr xs \<Rightarrow> (case map_result (read s) xs of
                                       Inl e \<Rightarrow> Inl e | Inr ys \<Rightarrow> Inr (JArr ys))
                       | _ \<Rightarrow> parseError ''array'' o'),
               write = (\<lambda>o'. case o' of
                          JArr xs \<Rightarrow> (case map_result (write s) xs of
                                        Inl e \<Rightarrow> Inl e | Inr ys \<Rightarrow> Inr (JArr ys))
                        | _ \<Rightarrow> Inl TypeError) \<rparr>"

text \<open>
  A field definition \<^verbatim>\<open>def\<close> is the list of its fields in the order of
  \<^verbatim>\<open>Object.keys(def)\<close>, each name with \<^verbatim>\<open>def[key]\<close>.  The loops below are the
  \<^verbatim>\<open>for (let key of Object.keys(def))\<close> loops, \<open>out\<close> the object under construction.
\<close>

fun obj_read_loop ::
  "(string \<times> serializer) list \<Rightarrow> jsval \<Rightarrow> (string \<times> jsval) list \<Rightarrow> error + (string \<times> jsval) list" where
  "obj_read_loop [] o' out = Inr out"
| "obj_read_loop ((key, s) # rest) o' out =
     (if instanceof_Object o' \<and> \<not> instanceof_Array o' then
        (case get o' key of
           Inl e \<Rightarrow> Inl e
         | Inr x \<Rightarrow> (case read s x of
                       Inl e \<Rightarrow> Inl e
                     | Inr v \<Rightarrow> obj_read_loop rest o' (set_prop out key v)))
      else parseError ''an object'' o')"

fun obj_write_loop ::
  "(string \<times> serializer) list \<Rightarrow> jsval \<Rightarrow> (string \<times> jsval) list \<Rightarrow> error + (string \<times> jsval) list" where
  "obj_write_loop [] r out = Inr out"
| "obj_write_loop ((key, s) # rest) r out =
     (case get r key of
        Inl e \<Rightarrow> Inl e
      | Inr x \<Rightarrow> (case write s x of
                    Inl e \<Rightarrow> Inl e
                  | Inr v \<Rightarrow> obj_write_loop rest r (set_prop out key v)))"

definition obj :: "(string \<times> serializer) list \<Rightarrow> serializer" where
  "obj def = \<lparr> container = Some ''obj'',
               read = (\<lambda>o'. case obj_read_loop def o' [] of
                         Inl e \<Rightarrow> Inl e | Inr out \<Rightarrow> Inr (JObj out)),
               write = (\<lambda>r. case obj_write_loop def r [] of
                          Inl e \<Rightarrow> Inl e | Inr out \<Rightarrow> Inr (JObj out)) \<rparr>"

text \<open>Like \<open>obj\<close>, but all properties are optional.\<close>

definition partial_obj :: "(string \<times> serializer) list \<Rightarrow> serializer" where
  "partial_obj def =
     \<lparr> container = Some ''obj'',
       read = (\<lambda>o'. case obj_read_loop (map (\<lambda>(key, s). (key, optional s)) def) o' [] of
                 Inl e \<Rightarrow> Inl e | Inr out \<Rightarrow> Inr (JObj out)),
       write = (\<lambda>r. case obj_write_loop (map (\<lambda>(key, s). (key, optional s)) def) r [] of
                  Inl e \<Rightarrow> Inl e | Inr out \<Rightarrow> Inr (JObj out)) \<rparr>"

text \<open>\<^verbatim>\<open>def.map((d, i) => ...)\<close> hands each serializer with its position.\<close>

definition with_index :: "'a list \<Rightarrow> ('a \<times> nat) list" where
  "with_index def = zip def [0..<length def]"

definition tuple :: "serializer list \<Rightarrow> serializer" where
  "tuple def =
     \<lparr> container = Some ''tuple'',
       read = (\<lambda>o'. case o' of
                 JArr xs \<Rightarrow> (case map_result (\<lambda>(d, i). read d (elem xs i)) (with_index def) of
                               Inl e \<Rightarrow> Inl e | Inr ys \<Rightarrow> Inr (JArr ys))
               | _ \<Rightarrow> parseError ''an array'' o'),
       write = (\<lambda>r. case map_result
                          (\<lambda>(d, i). case get_index r i of Inl e \<Rightarrow> Inl e | Inr x \<Rightarrow> write d x)
                          (with_index def) of
                  Inl e \<Rightarrow> Inl e | Inr ys \<Rightarrow> Inr (JArr ys)) \<rparr>"

text \<open>\<^verbatim>\<open>def\<close> of \<open>oneOf\<close> is an object of which only the keys are used.\<close>

definition oneOf :: "(string \<times> jsval) list \<Rightarrow> serializer" where
  "oneOf def =
     \<lparr> container = Some ''sumtype'',
       read = (\<lambda>o'. if indexOf (map fst def) o' \<noteq> -1 then Inr o'
                     else parseError (''one of '' @ join_with '','' (map fst def)) o'),
       write = (\<lambda>t. Inr t) \<rparr>"

text \<open>
  The overloads of \<open>variant\<close> take one to ten pairs of a tag and an object serializer, which
  the implementation receives as one flat argument list and separates again by the parity
  of the position.  Here the arguments are the list of pairs: \<open>variantTypes\<close> are the first
  components, \<open>variantSerializers\<close> the second ones.  The object that \<open>variant\<close> returns has
  no \<^verbatim>\<open>container\<close> property.

  In \<open>write\<close>, a tag that is not declared gives \<^verbatim>\<open>variantSerializers[-1]\<close>, which is
  \<^verbatim>\<open>undefined\<close>, and the call of its \<^verbatim>\<open>write\<close> throws.
\<close>

definition variantTypes :: "(string \<times> serializer) list \<Rightarrow> string list" where
  "variantTypes args = map fst args"

definition variantSerializers :: "(string \<times> serializer) list \<Rightarrow> serializer list" where
  "variantSerializers args = map snd args"

definition variant :: "(string \<times> serializer) list \<Rightarrow> serializer" where
  "variant args =
     \<lparr> container = None,
       read = (\<lambda>o'. case get o' ''type'' of
                 Inl e \<Rightarrow> Inl e
               | Inr ty \<Rightarrow>
                   (let i = indexOf (variantTypes args) ty in
                    if i = -1 then parseError (''type in '' @ json_string_array (variantTypes args)) o'
                    else (case read (variantSerializers args ! nat i) o' of
                            Inl e \<Rightarrow> Inl e
                          | Inr r \<Rightarrow> Inr (JObj (set_prop (spread r) ''type'' ty))))),
       write = (\<lambda>t. case get t ''type'' of
                  Inl e \<Rightarrow> Inl e
                | Inr ty \<Rightarrow>
                    (let i = indexOf (variantTypes args) ty in
                     if i = -1 then Inl TypeError
                     else (case write (variantSerializers args ! nat i) t of
                             Inl e \<Rightarrow> Inl e
                           | Inr w \<Rightarrow> Inr (JObj (set_prop (spread w) ''type'' ty))))) \<rparr>"


subsection \<open>The message of a parse error\<close>

text \<open>\<^verbatim>\<open>JSON.stringify(got)\<close>, which is \<^verbatim>\<open>undefined\<close> on \<^verbatim>\<open>undefined\<close>, and the message built from it.\<close>

fun json_stringify :: "jsval \<Rightarrow> string option" where
  "json_stringify JUndefined = None"
| "json_stringify JNull = Some ''null''"
| "json_stringify (JBool b) = Some (if b then ''true'' else ''false'')"
| "json_stringify (JNum n) = Some (case n of Fin q \<Rightarrow> num_to_string n | _ \<Rightarrow> ''null'')"
| "json_stringify (JStr s) = Some (json_string s)"
| "json_stringify (JArr xs) =
     Some (''['' @ join_with '','' (map (\<lambda>x. case json_stringify x of None \<Rightarrow> ''null'' | Some s \<Rightarrow> s) xs) @ '']'')"
| "json_stringify (JObj kvs) =
     Some (''{'' @ join_with '','' (concat (map (\<lambda>(k, v). case json_stringify v of
                                                  None \<Rightarrow> [] | Some s \<Rightarrow> [json_string k @ '':'' @ s]) kvs)) @ ''}'')"

definition message :: "string \<Rightarrow> jsval \<Rightarrow> string" where
  "message wanted got =
     ''Parse error: expected '' @ wanted @ '' but found ''
       @ (case json_stringify got of None \<Rightarrow> ''undefined'' | Some s \<Rightarrow> s)"

section \<open>Failures of read\<close>

text \<open>A serializer whose \<open>read\<close> throws nothing but \<open>ParseError\<close>.\<close>

definition only_parse_errors :: "serializer \<Rightarrow> bool" where
  "only_parse_errors s \<longleftrightarrow> (\<forall>v e. read s v = Inl e \<longrightarrow> (\<exists>wanted got. e = ParseError wanted got))"


section \<open>The domain of the round trip\<close>

text \<open>
  \<open>portable s v\<close>: the serializer \<open>s\<close> is built from the combinators above, and reading
  the input \<open>v\<close> with it stays clear of the two places where writing and reading again
  does not give the value back:
  \<^item> \<open>int_s\<close> reading a number of magnitude \<open>10^21\<close> or more: such a number prints in
    exponent notation, of which \<^verbatim>\<open>parseInt\<close> reads the digits before the point only;
  \<^item> \<open>nullable s\<close> on a present input that \<open>s\<close> reads as \<^verbatim>\<open>undefined\<close>, which \<open>nullable\<close>
    writes as \<^verbatim>\<open>null\<close> and reads back as \<^verbatim>\<open>null\<close>.
  The conditions are asked only of the parts of the input that the serializers meet: the
  elements of an array, the declared fields of an object, the declared positions of a
  tuple, the fields of the payload that the \<^verbatim>\<open>type\<close> of the input selects.  The payloads of a
  \<open>variant\<close> are \<open>obj\<close> serializers, and \<open>partial_obj def\<close> is the \<open>obj\<close> of the fields of
  \<open>def\<close> wrapped in \<open>optional\<close>.  Field names are distinct, as the keys of an object are.
\<close>

inductive portable :: "serializer \<Rightarrow> jsval \<Rightarrow> bool" where
  p_str: "portable str v"
| p_bool: "portable bool v"
| p_nothing: "portable nothing v"
| p_raw: "portable raw v"
| p_int: "(\<And>q. parseInt v = Fin q \<Longrightarrow> \<bar>q\<bar> < 10 ^ 21) \<Longrightarrow> portable int_s v"
| p_float: "portable float v"
| p_oneOf: "portable (oneOf def) v"
| p_optional: "(\<not> eq_null v \<Longrightarrow> portable s v) \<Longrightarrow> portable (optional s) v"
| p_nullable: "(\<not> eq_null v \<Longrightarrow> portable s v) \<Longrightarrow> (\<not> eq_null v \<Longrightarrow> read s v \<noteq> Inr JUndefined)
     \<Longrightarrow> portable (nullable s) v"
| p_array: "(\<And>xs x. v = JArr xs \<Longrightarrow> x \<in> set xs \<Longrightarrow> portable s x) \<Longrightarrow> portable (array s) v"
| p_obj: "distinct (map fst def)
     \<Longrightarrow> (\<And>kvs k s. v = JObj kvs \<Longrightarrow> (k, s) \<in> set def \<Longrightarrow> portable s (own_prop kvs k))
     \<Longrightarrow> portable (obj def) v"
| p_tuple: "(\<And>xs i. v = JArr xs \<Longrightarrow> i < length def \<Longrightarrow> portable (def ! i) (elem xs i))
     \<Longrightarrow> portable (tuple def) v"
| p_variant: "(\<And>tag def. (tag, def) \<in> set targs \<Longrightarrow> distinct (map fst def))
     \<Longrightarrow> (\<And>kvs i k s. v = JObj kvs \<Longrightarrow> i < length targs
            \<Longrightarrow> indexOf (map fst targs) (own_prop kvs ''type'') = int i
            \<Longrightarrow> (k, s) \<in> set (snd (targs ! i)) \<Longrightarrow> portable s (own_prop kvs k))
     \<Longrightarrow> portable (variant (map (\<lambda>(tag, def). (tag, obj def)) targs)) v"

text \<open>
  What the induction over \<open>portable\<close> carries: the round trip itself; that a value read
  from a present input is not \<^verbatim>\<open>null\<close>, and that a present value is written as a present
  one (both for \<open>optional\<close> and \<open>nullable\<close>); that a string which reads is also written
  (for the field \<^verbatim>\<open>type\<close> of a payload, which \<open>variant\<close> overwrites with the tag).
\<close>

definition rt_inv :: "serializer \<Rightarrow> jsval \<Rightarrow> bool" where
  "rt_inv s v \<longleftrightarrow>
     (\<forall>t. read s v = Inr t \<longrightarrow>
        (\<exists>v2. write s t = Inr v2 \<and> read s v2 = Inr t \<and> (\<not> eq_null t \<longrightarrow> \<not> eq_null v2))
        \<and> (\<not> eq_null v \<longrightarrow> t \<noteq> JNull))
     \<and> (\<forall>x. v = JStr x \<longrightarrow> (\<exists>t. read s v = Inr t) \<longrightarrow> (\<exists>w. write s v = Inr w))"

section \<open>Evaluation of the parsers and printers on literals\<close>

lemma digit_char_simps:
  "digit_char 0 = CHR ''0''" "digit_char 1 = CHR ''1''" "digit_char 2 = CHR ''2''"
  "digit_char 3 = CHR ''3''" "digit_char 4 = CHR ''4''" "digit_char 5 = CHR ''5''"
  "digit_char 6 = CHR ''6''" "digit_char 7 = CHR ''7''" "digit_char 8 = CHR ''8''"
  "digit_char 9 = CHR ''9''" "digit_char (Suc 0) = CHR ''1''"
  by (simp_all add: digit_char_def char_of_def bit_iff_odd)

lemmas parse_eval = parseInt_def parseFloat_def is_whitespace_def is_digit_def digit_val_def
  digits_value_def exponent_of_def pow10_def Let_def

lemmas print_eval = pos_to_string_def decimal_of_def strip_zeros.simps digits_of.simps
  digit_char_simps Let_def


section \<open>Sequences of calls that may throw\<close>

lemma map_result_Inr_all2:
  "list_all2 (\<lambda>x y. f x = Inr y) xs ys \<longleftrightarrow> map_result f xs = Inr ys"
  by (induction xs arbitrary: ys) (auto simp: list_all2_Cons1 split: sum.splits)

lemma map_result_Inr_conv:
  "map_result f xs = Inr ys \<longleftrightarrow>
     length ys = length xs \<and> (\<forall>i<length xs. f (xs ! i) = Inr (ys ! i))"
  by (auto simp: map_result_Inr_all2 [symmetric] list_all2_conv_all_nth)


lemma length_with_index: "length (with_index def) = length def"
  by (simp add: with_index_def)

lemma nth_with_index: "i < length def \<Longrightarrow> with_index def ! i = (def ! i, i)"
  by (simp add: with_index_def)



lemma own_prop_set_prop_same: "own_prop (set_prop out key v) key = v"
  by (induction out) (auto simp: own_prop_def)

lemma own_prop_set_prop_other: "k \<noteq> key \<Longrightarrow> own_prop (set_prop out key v) k = own_prop out k"
  by (induction out) (auto simp: own_prop_def)






subsection \<open>Searching the declared tags\<close>

lemma indexOf_from_none: "(\<forall>x\<in>set xs. v \<noteq> JStr x) \<Longrightarrow> indexOf_from k xs v = -1"
  by (induction xs arbitrary: k) auto

lemma indexOf_from_first:
  "i < length xs \<Longrightarrow> v = JStr (xs ! i) \<Longrightarrow> \<forall>j<i. xs ! j \<noteq> xs ! i \<Longrightarrow> indexOf_from k xs v = k + int i"
proof (induction xs arbitrary: k i)
  case Nil
  then show ?case by simp
next
  case (Cons x xs)
  show ?case
  proof (cases i)
    case 0
    then show ?thesis using Cons.prems by simp
  next
    case (Suc n)
    have ne: "x \<noteq> (x # xs) ! i" using Cons.prems(3) Suc by fastforce
    have "indexOf_from (k + 1) xs v = (k + 1) + int n"
    proof (rule Cons.IH)
      show "n < length xs" using Cons.prems(1) Suc by simp
      show "v = JStr (xs ! n)" using Cons.prems(2) Suc by simp
      show "\<forall>j<n. xs ! j \<noteq> xs ! n" using Cons.prems(3) Suc by fastforce
    qed
    then show ?thesis using ne Cons.prems(2) Suc by simp
  qed
qed

lemma indexOf_from_found:
  "indexOf_from k xs v \<noteq> -1 \<Longrightarrow> 0 \<le> k \<Longrightarrow>
     k \<le> indexOf_from k xs v \<and> nat (indexOf_from k xs v - k) < length xs
     \<and> v = JStr (xs ! nat (indexOf_from k xs v - k))"
proof (induction xs arbitrary: k)
  case Nil
  then show ?case by simp
next
  case (Cons x xs)
  show ?case
  proof (cases "v = JStr x")
    case True
    then show ?thesis by simp
  next
    case False
    then have eq: "indexOf_from k (x # xs) v = indexOf_from (k + 1) xs v" by simp
    have ih: "k + 1 \<le> indexOf_from (k + 1) xs v \<and> nat (indexOf_from (k + 1) xs v - (k + 1)) < length xs
     \<and> v = JStr (xs ! nat (indexOf_from (k + 1) xs v - (k + 1)))"
      using Cons.IH [of "k + 1"] Cons.prems eq by simp
    then have "nat (indexOf_from (k + 1) xs v - k) = Suc (nat (indexOf_from (k + 1) xs v - (k + 1)))"
      by linarith
    then show ?thesis using ih eq by simp
  qed
qed

lemma indexOf_none: "(\<forall>x\<in>set xs. v \<noteq> JStr x) \<Longrightarrow> indexOf xs v = -1"
  by (simp add: indexOf_def indexOf_from_none)

lemma indexOf_first:
  "i < length xs \<Longrightarrow> v = JStr (xs ! i) \<Longrightarrow> \<forall>j<i. xs ! j \<noteq> xs ! i \<Longrightarrow> indexOf xs v = int i"
  by (simp add: indexOf_def indexOf_from_first)

lemma indexOf_found:
  "indexOf xs v \<noteq> -1 \<Longrightarrow>
     0 \<le> indexOf xs v \<and> nat (indexOf xs v) < length xs \<and> v = JStr (xs ! nat (indexOf xs v))"
  using indexOf_from_found [of 0 xs v] by (simp add: indexOf_def)

section \<open>Leading numeric text\<close>



















section \<open>Integers print as text that reads back\<close>












section \<open>Scalars\<close>

text \<open>
  C8.  \<open>str.read\<close> returns a string unchanged and fails on every input that is not a
  string, among them \<open>42\<close>, \<open>true\<close>, \<open>null\<close> and an array; \<open>bool.read\<close> returns a boolean
  unchanged and fails on the string \<open>"true"\<close>.
\<close>

theorem scalar_rejection:
  "read str (JStr s) = Inr (JStr s)
   \<and> ((\<forall>x. v \<noteq> JStr x) \<longrightarrow> read str v = Inl (ParseError ''string'' v))
   \<and> read str (JNum (Fin 42)) = Inl (ParseError ''string'' (JNum (Fin 42)))
   \<and> read str (JBool True) = Inl (ParseError ''string'' (JBool True))
   \<and> read str JNull = Inl (ParseError ''string'' JNull)
   \<and> read str (JArr []) = Inl (ParseError ''string'' (JArr []))
   \<and> read bool (JBool b) = Inr (JBool b)
   \<and> read bool (JStr ''true'') = Inl (ParseError ''boolean'' (JStr ''true''))"
  by (cases v) (simp_all add: str_def bool_def parseError_def)

theorem scalar_rejection_witness:
  "read str (JStr ''x'') = Inr (JStr ''x'')
   \<and> (\<forall>x. JObj [(''a'', JNull)] \<noteq> JStr x)
   \<and> read str (JObj [(''a'', JNull)]) = Inl (ParseError ''string'' (JObj [(''a'', JNull)]))
   \<and> read bool (JBool False) = Inr (JBool False)"
  using scalar_rejection [of "''x''" "JObj [(''a'', JNull)]" False] by simp



section \<open>Optional and nullable\<close>

text \<open>
  C7.  For every serializer \<open>s\<close>, \<open>optional s\<close> reads \<open>null\<close> and \<open>undefined\<close> alike as
  \<open>undefined\<close> and hands every other input to \<open>s\<close>; it writes the absent value as \<open>null\<close>
  and hands every other value to \<open>s\<close>.  \<open>nullable s\<close> does the same, except that it reads
  the absent input as \<open>null\<close>.
\<close>

theorem optional_nullable_absence:
  "read (optional s) v = (if v = JNull \<or> v = JUndefined then Inr JUndefined else read s v)
   \<and> write (optional s) t = (if t = JUndefined \<or> t = JNull then Inr JNull else write s t)
   \<and> read (nullable s) v = (if v = JNull \<or> v = JUndefined then Inr JNull else read s v)
   \<and> write (nullable s) t = (if t = JUndefined \<or> t = JNull then Inr JNull else write s t)"
  by (cases v; cases t) (simp_all add: optional_def nullable_def)

theorem optional_nullable_absence_witness:
  "read (optional str) JNull = Inr JUndefined
   \<and> read (optional str) JUndefined = Inr JUndefined
   \<and> read (optional str) (JStr ''a'') = Inr (JStr ''a'')
   \<and> write (optional str) JUndefined = Inr JNull
   \<and> read (nullable str) JUndefined = Inr JNull
   \<and> write (nullable str) (JStr ''a'') = Inr (JStr ''a'')"
  using optional_nullable_absence [of str JNull JUndefined]
        optional_nullable_absence [of str JUndefined "JStr ''a''"]
        optional_nullable_absence [of str "JStr ''a''" JNull]
  by (simp add: str_def)

section \<open>Objects\<close>

text \<open>
  C9.  With no declared field, \<open>obj\<close> and \<open>partial_obj\<close> read every input, arrays, scalars
  and \<open>null\<close> included, as the empty object: the test for an object sits inside the loop
  over the fields, which does not run.
\<close>

theorem empty_obj_reads_anything:
  "read (obj []) v = Inr (JObj []) \<and> read (partial_obj []) v = Inr (JObj [])"
  by (simp add: obj_def partial_obj_def)

theorem empty_obj_reads_anything_witness:
  "read (obj []) (JArr [JNull]) = Inr (JObj []) \<and> read (partial_obj []) JNull = Inr (JObj [])"
  using empty_obj_reads_anything [of "JArr [JNull]"] empty_obj_reads_anything [of JNull]
  by simp




section \<open>Tuples\<close>

lemma tuple_read_array:
  "read (tuple def) (JArr xs) = Inr r \<longleftrightarrow>
     (\<exists>ys. r = JArr ys \<and> length ys = length def
           \<and> (\<forall>i<length def. read (def ! i) (elem xs i) = Inr (ys ! i)))"
proof -
  let ?f = "\<lambda>(d, i). read d (elem xs i)"
  have key: "map_result ?f (with_index def) = Inr ys \<longleftrightarrow>
      length ys = length def \<and> (\<forall>i<length def. read (def ! i) (elem xs i) = Inr (ys ! i))" for ys
    by (simp add: map_result_Inr_conv length_with_index nth_with_index)
  have "read (tuple def) (JArr xs) = Inr r \<longleftrightarrow>
      (\<exists>ys. r = JArr ys \<and> map_result ?f (with_index def) = Inr ys)"
    by (auto simp: tuple_def split: sum.splits)
  then show ?thesis by (simp add: key)
qed

lemma tuple_write_any:
  "write (tuple def) t = Inr w \<longleftrightarrow>
     (\<exists>ys. w = JArr ys \<and> length ys = length def
           \<and> (\<forall>i<length def. \<exists>x. get_index t i = Inr x \<and> write (def ! i) x = Inr (ys ! i)))"
proof -
  let ?f = "\<lambda>(d, i). case get_index t i of Inl e \<Rightarrow> Inl e | Inr x \<Rightarrow> write d x"
  have step: "(case get_index t i of Inl e \<Rightarrow> Inl e | Inr x \<Rightarrow> write d x) = Inr y
      \<longleftrightarrow> (\<exists>x. get_index t i = Inr x \<and> write d x = Inr y)" for d i y
    by (cases "get_index t i") simp_all
  have key: "map_result ?f (with_index def) = Inr ys \<longleftrightarrow>
      length ys = length def
      \<and> (\<forall>i<length def. \<exists>x. get_index t i = Inr x \<and> write (def ! i) x = Inr (ys ! i))" for ys
    by (simp add: map_result_Inr_conv length_with_index nth_with_index step)
  have "write (tuple def) t = Inr w \<longleftrightarrow>
      (\<exists>ys. w = JArr ys \<and> map_result ?f (with_index def) = Inr ys)"
    by (auto simp: tuple_def split: sum.splits)
  then show ?thesis by (simp only: key)
qed

text \<open>
  C6.  \<open>tuple def\<close> fails with \<^verbatim>\<open>an array\<close> on every input that is not an array.  On an
  array it reads position \<open>i\<close> of the input with the \<open>i\<close>-th serializer, for the declared
  positions only, and a position that the input does not have as \<open>undefined\<close>.  What
  \<open>write\<close> returns is an array of the declared length, position \<open>i\<close> written by the \<open>i\<close>-th
  serializer.
\<close>

theorem tuple_arity:
  "((\<forall>xs. o' \<noteq> JArr xs) \<longrightarrow> read (tuple def) o' = Inl (ParseError ''an array'' o'))
   \<and> (read (tuple def) (JArr xs) = Inr r \<longleftrightarrow>
        (\<exists>ys. r = JArr ys \<and> length ys = length def
              \<and> (\<forall>i<length def. read (def ! i) (if i < length xs then xs ! i else JUndefined) = Inr (ys ! i))))
   \<and> (write (tuple def) (JArr ts) = Inr w \<longleftrightarrow>
        (\<exists>ys. w = JArr ys \<and> length ys = length def
              \<and> (\<forall>i<length def. write (def ! i) (if i < length ts then ts ! i else JUndefined) = Inr (ys ! i))))
   \<and> (write (tuple def) t = Inr w \<longrightarrow> (\<exists>ys. w = JArr ys \<and> length ys = length def))"
proof (intro conjI impI)
  assume "\<forall>xs. o' \<noteq> JArr xs"
  then show "read (tuple def) o' = Inl (ParseError ''an array'' o')"
    by (cases o') (simp_all add: tuple_def parseError_def)
next
  show "read (tuple def) (JArr xs) = Inr r \<longleftrightarrow>
        (\<exists>ys. r = JArr ys \<and> length ys = length def
              \<and> (\<forall>i<length def. read (def ! i) (if i < length xs then xs ! i else JUndefined) = Inr (ys ! i)))"
    using tuple_read_array [of "def" xs r] by (simp only: elem_def)
next
  show "write (tuple def) (JArr ts) = Inr w \<longleftrightarrow>
        (\<exists>ys. w = JArr ys \<and> length ys = length def
              \<and> (\<forall>i<length def. write (def ! i) (if i < length ts then ts ! i else JUndefined) = Inr (ys ! i)))"
    using tuple_write_any [of "def" "JArr ts" w] by (simp add: elem_def)
next
  assume "write (tuple def) t = Inr w"
  then show "\<exists>ys. w = JArr ys \<and> length ys = length def"
    using tuple_write_any [of "def" t w] by blast
qed

theorem tuple_arity_witness:
  "read (tuple [str, int_s]) (JStr ''x'') = Inl (ParseError ''an array'' (JStr ''x''))
   \<and> read (tuple [str, int_s]) (JArr [JStr ''x'', JNum (Fin 5), JStr ''extra''])
       = Inr (JArr [JStr ''x'', JNum (Fin 5)])
   \<and> read (tuple [str, optional str]) (JArr [JStr ''x'']) = Inr (JArr [JStr ''x'', JUndefined])
   \<and> write (tuple [str, int_s]) (JArr [JStr ''x'', JNum (Fin 5)]) = Inr (JArr [JStr ''x'', JNum (Fin 5)])"
proof -
  have five: "parseInt (JNum (Fin 5)) = Fin 5" by (simp add: parse_eval print_eval)
  have 1: "read (tuple [str, int_s]) (JStr ''x'') = Inl (ParseError ''an array'' (JStr ''x''))"
    using tuple_arity [of "JStr ''x''" "[str, int_s]"] by simp
  have 2: "read (tuple [str, int_s]) (JArr [JStr ''x'', JNum (Fin 5), JStr ''extra''])
       = Inr (JArr [JStr ''x'', JNum (Fin 5)])"
    using tuple_arity [of _ "[str, int_s]" "[JStr ''x'', JNum (Fin 5), JStr ''extra'']" "JArr [JStr ''x'', JNum (Fin 5)]"]
    by (simp add: less_Suc_eq str_def int_s_def five)
  have 3: "read (tuple [str, optional str]) (JArr [JStr ''x'']) = Inr (JArr [JStr ''x'', JUndefined])"
    using tuple_arity [of _ "[str, optional str]" "[JStr ''x'']" "JArr [JStr ''x'', JUndefined]"]
    by (simp add: less_Suc_eq str_def optional_def)
  have 4: "write (tuple [str, int_s]) (JArr [JStr ''x'', JNum (Fin 5)]) = Inr (JArr [JStr ''x'', JNum (Fin 5)])"
    using tuple_arity [of _ "[str, int_s]" _ _ "[JStr ''x'', JNum (Fin 5)]" "JArr [JStr ''x'', JNum (Fin 5)]"]
    by (simp add: less_Suc_eq str_def int_s_def)
  show ?thesis using 1 2 3 4 by simp
qed

section \<open>Variants\<close>

text \<open>
  C4.  On an object whose \<^verbatim>\<open>type\<close> property is the \<open>i\<close>-th declared tag, and no earlier one,
  \<open>variant\<close> reads the whole input with the \<open>i\<close>-th serializer and returns its result with
  the property \<^verbatim>\<open>type\<close> set to the input's: every other property is the one that was
  read.  On an input whose \<^verbatim>\<open>type\<close> is no declared tag it fails, the message being
  \<^verbatim>\<open>Parse error: expected type in\<close> followed by the declared tags as a JSON array.
\<close>

theorem variant_dispatch:
  "(i < length args \<and> own_prop kvs ''type'' = JStr (fst (args ! i))
      \<and> (\<forall>j<i. fst (args ! j) \<noteq> fst (args ! i)) \<longrightarrow>
      read (variant args) (JObj kvs) =
        (case read (snd (args ! i)) (JObj kvs) of
           Inl e \<Rightarrow> Inl e
         | Inr r \<Rightarrow> Inr (JObj (set_prop (spread r) ''type'' (own_prop kvs ''type'')))))
   \<and> own_prop (set_prop out ''type'' ty) key = (if key = ''type'' then ty else own_prop out key)
   \<and> (get v ''type'' = Inr ty' \<and> (\<forall>tag\<in>set (map fst args). ty' \<noteq> JStr tag) \<longrightarrow>
        read (variant args) v = Inl (ParseError (''type in '' @ json_string_array (map fst args)) v)
        \<and> message (''type in '' @ json_string_array (map fst args)) v
          = ''Parse error: expected type in '' @ json_string_array (map fst args) @ '' but found ''
              @ (case json_stringify v of None \<Rightarrow> ''undefined'' | Some s \<Rightarrow> s))"
proof (intro conjI impI)
  assume a: "i < length args \<and> own_prop kvs ''type'' = JStr (fst (args ! i))
      \<and> (\<forall>j<i. fst (args ! j) \<noteq> fst (args ! i))"
  then have "indexOf (variantTypes args) (own_prop kvs ''type'') = int i"
    by (intro indexOf_first) (simp_all add: variantTypes_def)
  then show "read (variant args) (JObj kvs) =
        (case read (snd (args ! i)) (JObj kvs) of
           Inl e \<Rightarrow> Inl e
         | Inr r \<Rightarrow> Inr (JObj (set_prop (spread r) ''type'' (own_prop kvs ''type''))))"
    using a by (simp add: variant_def variantSerializers_def split: sum.splits)
next
  show "own_prop (set_prop out ''type'' ty) key = (if key = ''type'' then ty else own_prop out key)"
    by (simp add: own_prop_set_prop_same own_prop_set_prop_other)
next
  assume a: "get v ''type'' = Inr ty' \<and> (\<forall>tag\<in>set (map fst args). ty' \<noteq> JStr tag)"
  then have "indexOf (variantTypes args) ty' = -1"
    by (intro indexOf_none) (simp add: variantTypes_def)
  then show "read (variant args) v = Inl (ParseError (''type in '' @ json_string_array (map fst args)) v)"
    using a by (simp add: variant_def parseError_def variantTypes_def)
next
  show "message (''type in '' @ json_string_array (map fst args)) v
          = ''Parse error: expected type in '' @ json_string_array (map fst args) @ '' but found ''
              @ (case json_stringify v of None \<Rightarrow> ''undefined'' | Some s \<Rightarrow> s)"
    by (simp add: message_def)
qed

theorem variant_dispatch_witness:
  "read (variant [(''add'', obj [(''amount'', int_s)]), (''remove'', obj [(''amount'', int_s)])])
        (JObj [(''type'', JStr ''add''), (''amount'', JNum (Fin 3))])
     = Inr (JObj [(''amount'', JNum (Fin 3)), (''type'', JStr ''add'')])
   \<and> read (variant [(''add'', obj [(''amount'', int_s)]), (''remove'', obj [(''amount'', int_s)])])
        (JObj [(''type'', JStr ''multiply''), (''amount'', JNum (Fin 3))])
     = Inl (ParseError (''type in ['' @ [CHR 0x22] @ ''add'' @ [CHR 0x22] @ '','' @ [CHR 0x22] @ ''remove'' @ [CHR 0x22] @ '']'')
              (JObj [(''type'', JStr ''multiply''), (''amount'', JNum (Fin 3))]))
   \<and> read (variant [(''add'', obj [(''amount'', int_s)]), (''remove'', obj [(''amount'', int_s)])])
        (JNum (Fin 3))
     = Inl (ParseError (''type in ['' @ [CHR 0x22] @ ''add'' @ [CHR 0x22] @ '','' @ [CHR 0x22] @ ''remove'' @ [CHR 0x22] @ '']'')
              (JNum (Fin 3)))
   \<and> read (variant [(''a'', obj [(''n'', str)]), (''a'', obj [(''n'', bool)])])
        (JObj [(''type'', JStr ''a''), (''n'', JBool True)])
     = Inl (ParseError ''string'' (JBool True))"
proof -
  let ?args = "[(''add'', obj [(''amount'', int_s)]), (''remove'', obj [(''amount'', int_s)])]"
  let ?dup = "[(''a'', obj [(''n'', str)]), (''a'', obj [(''n'', bool)])]"
  let ?bad = "JObj [(''type'', JStr ''multiply''), (''amount'', JNum (Fin 3))]"
  have three: "parseInt (JNum (Fin 3)) = Fin 3" by (simp add: parse_eval print_eval)
  have 1: "read (variant ?args) (JObj [(''type'', JStr ''add''), (''amount'', JNum (Fin 3))])
     = Inr (JObj [(''amount'', JNum (Fin 3)), (''type'', JStr ''add'')])"
    using variant_dispatch [where i = 0 and args = ?args
        and kvs = "[(''type'', JStr ''add''), (''amount'', JNum (Fin 3))]"]
    by (simp add: own_prop_def obj_def int_s_def three)
  have 2: "read (variant ?args) ?bad
     = Inl (ParseError (''type in ['' @ [CHR 0x22] @ ''add'' @ [CHR 0x22] @ '','' @ [CHR 0x22] @ ''remove'' @ [CHR 0x22] @ '']'') ?bad)"
    using variant_dispatch [where args = ?args and v = ?bad and ty' = "JStr ''multiply''"]
    by (simp add: own_prop_def json_string_array_def json_string_def json_escape_def)
  have 3: "read (variant ?args) (JNum (Fin 3))
     = Inl (ParseError (''type in ['' @ [CHR 0x22] @ ''add'' @ [CHR 0x22] @ '','' @ [CHR 0x22] @ ''remove'' @ [CHR 0x22] @ '']'') (JNum (Fin 3)))"
    using variant_dispatch [where args = ?args and v = "JNum (Fin 3)" and ty' = JUndefined]
    by (simp add: json_string_array_def json_string_def json_escape_def)
  have 4: "read (variant ?dup) (JObj [(''type'', JStr ''a''), (''n'', JBool True)])
     = Inl (ParseError ''string'' (JBool True))"
    using variant_dispatch [where i = 0 and args = ?dup
        and kvs = "[(''type'', JStr ''a''), (''n'', JBool True)]"]
    by (simp add: own_prop_def obj_def str_def parseError_def)
  show ?thesis using 1 2 3 4 by simp
qed




section \<open>What a read can throw\<close>

text \<open>
  Every combinator but \<open>variant\<close> hands on the property of throwing only \<open>ParseError\<close>; a
  \<open>variant\<close> over such payloads adds one more outcome, the \<open>TypeError\<close> on \<^verbatim>\<open>null\<close> and
  \<^verbatim>\<open>undefined\<close>.
\<close>

lemma map_result_Inl_elem: "map_result f xs = Inl e \<Longrightarrow> \<exists>x\<in>set xs. f x = Inl e"
  by (induction xs) (auto split: sum.splits)

lemma only_parse_errors_leaf:
  "only_parse_errors str" "only_parse_errors bool" "only_parse_errors nothing"
  "only_parse_errors int_s" "only_parse_errors float" "only_parse_errors raw"
  "only_parse_errors (oneOf keys)"
  by (auto simp: only_parse_errors_def str_def bool_def nothing_def int_s_def float_def raw_def
        oneOf_def parseError_def Let_def split: if_splits)

lemma only_parse_errors_optional:
  "only_parse_errors s \<Longrightarrow> only_parse_errors (optional s)"
  "only_parse_errors s \<Longrightarrow> only_parse_errors (nullable s)"
  by (auto simp: only_parse_errors_def optional_def nullable_def split: if_splits)

lemma only_parse_errors_array: "only_parse_errors s \<Longrightarrow> only_parse_errors (array s)"
  unfolding only_parse_errors_def
proof (intro allI impI)
  fix v e
  assume s: "\<forall>v e. read s v = Inl e \<longrightarrow> (\<exists>wanted got. e = ParseError wanted got)"
    and r: "read (array s) v = Inl e"
  show "\<exists>wanted got. e = ParseError wanted got"
  proof (cases v)
    case (JArr xs)
    then have "map_result (read s) xs = Inl e" using r by (auto simp: array_def split: sum.splits)
    then show ?thesis using s map_result_Inl_elem by blast
  qed (use r in \<open>auto simp: array_def parseError_def\<close>)
qed

lemma only_parse_errors_tuple:
  assumes "\<forall>s\<in>set def. only_parse_errors s"
  shows "only_parse_errors (tuple def)"
  unfolding only_parse_errors_def
proof (intro allI impI)
  fix v e
  assume r: "read (tuple def) v = Inl e"
  show "\<exists>wanted got. e = ParseError wanted got"
  proof (cases v)
    case (JArr xs)
    then have "map_result (\<lambda>(d, i). read d (elem xs i)) (with_index def) = Inl e"
      using r by (auto simp: tuple_def split: sum.splits)
    then obtain d i where "(d, i) \<in> set (with_index def)" "read d (elem xs i) = Inl e"
      using map_result_Inl_elem by fastforce
    moreover have "d \<in> set def" using calculation(1) by (auto simp: with_index_def dest: set_zip_leftD)
    ultimately show ?thesis using assms unfolding only_parse_errors_def by blast
  qed (use r in \<open>auto simp: tuple_def parseError_def\<close>)
qed

lemma obj_read_loop_errors:
  assumes "\<forall>(k, s)\<in>set def. only_parse_errors s" and "obj_read_loop def v out = Inl e"
  shows "\<exists>wanted got. e = ParseError wanted got"
  using assms
proof (induction "def" arbitrary: out)
  case Nil
  then show ?case by simp
next
  case (Cons d "def")
  obtain k s where d: "d = (k, s)" by (cases d)
  show ?case
  proof (cases "instanceof_Object v \<and> \<not> instanceof_Array v")
    case True
    then obtain kvs where v: "v = JObj kvs" by (cases v) auto
    show ?thesis
    proof (cases "read s (own_prop kvs k)")
      case (Inl e')
      then have "e = e'" using Cons.prems(2) by (simp add: d v)
      moreover have "only_parse_errors s" using Cons.prems(1) d by simp
      ultimately show ?thesis using Inl unfolding only_parse_errors_def by blast
    next
      case (Inr x)
      then have "obj_read_loop def v (set_prop out k x) = Inl e"
        using Cons.prems(2) by (simp add: d v)
      then show ?thesis using Cons.IH Cons.prems(1) by simp
    qed
  next
    case False
    then show ?thesis using Cons.prems(2) by (auto simp: d parseError_def)
  qed
qed

lemma only_parse_errors_obj:
  assumes "\<forall>(k, s)\<in>set def. only_parse_errors s"
  shows "only_parse_errors (obj def)" "only_parse_errors (partial_obj def)"
proof -
  show "only_parse_errors (obj def)"
    unfolding only_parse_errors_def
    using obj_read_loop_errors [OF assms] by (auto simp: obj_def split: sum.splits)
  have "\<forall>(k, s)\<in>set (map (\<lambda>(key, s). (key, optional s)) def). only_parse_errors s"
    using assms by (auto simp: only_parse_errors_optional)
  then have "\<exists>wanted got. e = ParseError wanted got"
    if "obj_read_loop (map (\<lambda>(key, s). (key, optional s)) def) v [] = Inl e" for v e
    using obj_read_loop_errors that by blast
  then show "only_parse_errors (partial_obj def)"
    unfolding only_parse_errors_def by (auto simp: partial_obj_def split: sum.splits)
qed

lemma variant_read_errors:
  assumes "\<forall>(tag, s)\<in>set args. only_parse_errors s" and "read (variant args) v = Inl e"
  shows "(\<exists>wanted got. e = ParseError wanted got) \<or> (eq_null v \<and> e = TypeError)"
proof (cases "get v ''type''")
  case (Inl e')
  then have "eq_null v \<and> e' = TypeError" by (cases v) (auto split: if_splits option.splits)
  then show ?thesis using assms(2) Inl by (simp add: variant_def)
next
  case (Inr ty)
  show ?thesis
  proof (cases "indexOf (variantTypes args) ty = -1")
    case True
    then show ?thesis using assms(2) Inr by (auto simp: variant_def parseError_def)
  next
    case False
    then have i: "nat (indexOf (variantTypes args) ty) < length args"
      using indexOf_found [of "variantTypes args" ty] by (simp add: variantTypes_def)
    let ?s = "variantSerializers args ! nat (indexOf (variantTypes args) ty)"
    have "?s \<in> snd ` set args" using i by (simp add: variantSerializers_def)
    then have ok: "only_parse_errors ?s" using assms(1) by auto
    have "read ?s v = Inl e"
      using assms(2) Inr False by (auto simp: variant_def Let_def split: sum.splits)
    then show ?thesis using ok unfolding only_parse_errors_def by blast
  qed
qed

text \<open>
  C2.  \<open>variant\<close> reads the property \<^verbatim>\<open>type\<close> of its input before any test, so on \<^verbatim>\<open>null\<close>
  and on \<^verbatim>\<open>undefined\<close> the call ends with the runtime's \<open>TypeError\<close> and not with a
  \<open>ParseError\<close>; \<open>obj\<close>, on the same input, tests first and fails with a \<open>ParseError\<close>.
\<close>

theorem variant_read_null_throws:
  "read (variant [(''add'', obj [(''amount'', int_s)]), (''remove'', obj [(''amount'', int_s)])]) JNull
     = Inl TypeError
   \<and> read (variant [(''add'', obj [(''amount'', int_s)]), (''remove'', obj [(''amount'', int_s)])]) JUndefined
     = Inl TypeError
   \<and> read (obj [(''amount'', int_s)]) JNull = Inl (ParseError ''an object'' JNull)"
  by (simp add: variant_def obj_def parseError_def)

section \<open>Numbers print as text that reads back\<close>



























section \<open>Round trip\<close>


lemma rt_inv_leaf [simp]:
  "rt_inv str v" "rt_inv bool v" "rt_inv nothing v" "rt_inv raw v" "rt_inv (oneOf def) v"
  by (auto simp: rt_inv_def str_def bool_def nothing_def raw_def oneOf_def parseError_def
           split: if_splits)






























lemma partial_obj_eq: "partial_obj def = obj (map (\<lambda>(key, s). (key, optional s)) def)"
  by (simp add: partial_obj_def obj_def)


lemma portable_partial_obj:
  assumes dist: "distinct (map fst def)"
    and fields: "\<And>kvs k s. v = JObj kvs \<Longrightarrow> (k, s) \<in> set def \<Longrightarrow> \<not> eq_null (own_prop kvs k)
                   \<Longrightarrow> portable s (own_prop kvs k)"
  shows "portable (partial_obj def) v"
  unfolding partial_obj_eq
proof (rule p_obj)
  show "distinct (map fst (map (\<lambda>(key, s). (key, optional s)) def))"
    using dist by (simp add: case_prod_unfold comp_def)
next
  fix kvs k s'
  assume v: "v = JObj kvs" and m: "(k, s') \<in> set (map (\<lambda>(key, s). (key, optional s)) def)"
  then obtain s where s: "(k, s) \<in> set def" "s' = optional s" by auto
  show "portable s' (own_prop kvs k)"
    unfolding s(2) by (rule p_optional) (rule fields [OF v s(1)])
qed













end
